theory Spec2Isabelle
  imports Main
begin

section \<open>The spreadsheet validator of tools/abel/validators/spreadsheet_validator.py\<close>

text \<open>
  A parsed spreadsheet is a Python \<^verbatim>\<open>Dict[str, List[Dict[str, str]]]\<close>: table name to
  rows, a row being a dictionary from column header to cell value.
\<close>

type_synonym row = "string \<rightharpoonup> string"
type_synonym sheet = "row list"
type_synonym spreadsheet = "string \<rightharpoonup> sheet"

subsection \<open>The constants of model.constants\<close>

text \<open>
  The module \<^verbatim>\<open>model.constants\<close> is imported by the validator and is not part of the
  sources at hand, so the validator is modelled with its constants as a parameter.
\<close>

record constants =
  SITES :: string
  ENTITIES :: string
  ENTITY_FIELDS :: string
  STATES :: string
  CONNECTIONS :: string
  REQUIRED_SITE_HEADERS :: "string list"
  ALL_SITE_HEADERS :: "string list"
  REQUIRED_ENTITY_HEADERS :: "string list"
  ALL_ENTITY_HEADERS :: "string list"
  REQUIRED_FIELD_HEADERS :: "string list"
  ALL_FIELD_HEADERS :: "string list"
  REQUIRED_STATE_HEADERS :: "string list"
  ALL_STATE_HEADERS :: "string list"
  REQUIRED_CONNECTION_HEADERS :: "string list"
  ALL_CONNECTION_HEADERS :: "string list"
  BC_GUID :: string
  BUILDING_CODE :: string
  ENTITY_CODE :: string
  FACILITIES_NAMESPACE :: string
  NAMESPACE :: string
  REPORTING_ENTITY_CODE :: string
  REPORTING_ENTITY_FIELD_NAME :: string
  SOURCE_ENTITY_CODE :: string
  STANDARD_FIELD_NAME :: string
  TARGET_ENTITY_CODE :: string

text \<open>\<^verbatim>\<open>_ROW_START_INDEX = 2\<close>: the first data row of a sheet, row 1 being the header row.\<close>

definition ROW_START_INDEX :: nat where
  "ROW_START_INDEX = 2"

subsection \<open>Errors and exceptions\<close>

text \<open>
  The error classes of \<^verbatim>\<open>validators.spreadsheet_error\<close>, each with the keyword arguments
  the validator constructs it with, in the order given below. A cell value read with
  \<^verbatim>\<open>dict.get\<close> may be \<^verbatim>\<open>None\<close>, hence the option.
\<close>

datatype spreadsheet_error =
    SpreadsheetHeaderError string string string
      \<comment> \<open>table, header, message\<close>
  | MissingSpreadsheetValueError string nat string string
      \<comment> \<open>table, row, column, message\<close>
  | DuplicateCodeError string string
      \<comment> \<open>code, message\<close>
  | CrossSheetDependencyError string string nat string "string option"
      \<comment> \<open>source_table, target_table, row, column, cell_value\<close>
  | ConnectionDependencyError nat string string
      \<comment> \<open>row, missing_code, present_code\<close>

text \<open>The only exception the validator's own code raises: indexing a dictionary at a missing key.\<close>

datatype exn = KeyError string

subsection \<open>Programs with state and exceptions\<close>

text \<open>
  A Python statement is a function from the state it may assign to, to the state it
  leaves and either the exception it raised or the value it produced. The state left at
  a raise is kept, as the assignments done before a raise are.
\<close>

type_synonym ('s, 'a) prog = "'s \<Rightarrow> (exn + 'a) \<times> 's"

definition ret :: "'a \<Rightarrow> ('s, 'a) prog" where
  "ret x = (\<lambda>s. (Inr x, s))"

definition raise :: "exn \<Rightarrow> ('s, 'a) prog" where
  "raise e = (\<lambda>s. (Inl e, s))"

definition bnd :: "('s, 'a) prog \<Rightarrow> ('a \<Rightarrow> ('s, 'b) prog) \<Rightarrow> ('s, 'b) prog" where
  "bnd m f = (\<lambda>s. case m s of (Inl e, s') \<Rightarrow> (Inl e, s') | (Inr x, s') \<Rightarrow> f x s')"

text \<open>\<^verbatim>\<open>d[k]\<close> raises KeyError at a missing key; \<^verbatim>\<open>d.get(k)\<close> is the option \<open>d k\<close> itself.\<close>

definition getitem :: "(string \<rightharpoonup> 'v) \<Rightarrow> string \<Rightarrow> ('s, 'v) prog" where
  "getitem d k = (case d k of None \<Rightarrow> raise (KeyError k) | Some v \<Rightarrow> ret v)"

text \<open>\<^verbatim>\<open>d.get(k, [])\<close>\<close>

definition get_or_empty :: "(string \<rightharpoonup> 'v list) \<Rightarrow> string \<Rightarrow> 'v list" where
  "get_or_empty d k = (case d k of None \<Rightarrow> [] | Some v \<Rightarrow> v)"

text \<open>\<^verbatim>\<open>for x in xs: body\<close>\<close>

fun for_each :: "'a list \<Rightarrow> ('a \<Rightarrow> ('s, unit) prog) \<Rightarrow> ('s, unit) prog" where
  "for_each [] body = ret ()"
| "for_each (x # xs) body = bnd (body x) (\<lambda>_. for_each xs body)"

text \<open>The list comprehension \<^verbatim>\<open>[f(x) for x in xs]\<close>, where \<open>f\<close> may raise.\<close>

fun comprehension :: "'a list \<Rightarrow> ('a \<Rightarrow> ('s, 'b) prog) \<Rightarrow> ('s, 'b list) prog" where
  "comprehension [] f = ret []"
| "comprehension (x # xs) f = bnd (f x) (\<lambda>y. bnd (comprehension xs f) (\<lambda>ys. ret (y # ys)))"

text \<open>
  A method that works on a local variable only (a local list of errors, a local counter):
  it is run on the initial value of the local, and returns the final one unless it raised.
\<close>

definition run_local :: "('l, unit) prog \<Rightarrow> 'l \<Rightarrow> exn + 'l" where
  "run_local p l = (case p l of (Inl e, _) \<Rightarrow> Inl e | (Inr _, l') \<Rightarrow> Inr l')"

text \<open>Calling such a method from a program over another state.\<close>

definition call :: "exn + 'a \<Rightarrow> ('s, 'a) prog" where
  "call r = (case r of Inl e \<Rightarrow> raise e | Inr x \<Rightarrow> ret x)"

text \<open>\<^verbatim>\<open>xs.append(e)\<close> and \<^verbatim>\<open>n += 1\<close> on the local.\<close>

definition append_item :: "'e \<Rightarrow> ('e list, unit) prog" where
  "append_item e = (\<lambda>l. (Inr (), l @ [e]))"

definition increment :: "(nat, unit) prog" where
  "increment = (\<lambda>n. (Inr (), n + 1))"

subsection \<open>The validator instance and what a call can reach\<close>

text \<open>
  \<open>filepath\<close> and \<open>validation_errors\<close> are the attributes of the SpreadsheetValidator
  instance set by \<^verbatim>\<open>__init__\<close>; \<open>parsed_spreadsheet\<close> is the dictionary object the
  argument of \<^verbatim>\<open>Validate\<close> refers to (Python passes the reference, so the callee could
  assign into it); \<open>logged\<close> is what \<^verbatim>\<open>_LogErrors\<close> has handed to the logger.
\<close>

record heap =
  filepath :: string
  validation_errors :: "spreadsheet_error list"
  parsed_spreadsheet :: spreadsheet
  logged :: "spreadsheet_error list"

text \<open>\<^verbatim>\<open>__init__(self, filepath)\<close>, with the spreadsheet that will be passed to Validate.\<close>

definition init :: "string \<Rightarrow> spreadsheet \<Rightarrow> heap" where
  "init path ps = \<lparr>filepath = path, validation_errors = [], parsed_spreadsheet = ps, logged = []\<rparr>"

definition get_errors :: "(heap, spreadsheet_error list) prog" where
  "get_errors = (\<lambda>h. (Inr (validation_errors h), h))"

definition set_errors :: "spreadsheet_error list \<Rightarrow> (heap, unit) prog" where
  "set_errors es = (\<lambda>h. (Inr (), h\<lparr>validation_errors := es\<rparr>))"

definition get_parsed :: "(heap, spreadsheet) prog" where
  "get_parsed = (\<lambda>h. (Inr (parsed_spreadsheet h), h))"

text \<open>\<^verbatim>\<open>self.validation_errors.append(e)\<close>\<close>

definition append_error :: "spreadsheet_error \<Rightarrow> (heap, unit) prog" where
  "append_error e = (\<lambda>h. (Inr (), h\<lparr>validation_errors := validation_errors h @ [e]\<rparr>))"

text \<open>
  \<^verbatim>\<open>self.validation_errors += <call>\<close>: Python loads the attribute's list first, then
  evaluates the call (which may rebind the attribute to a new list), extends the list
  loaded first and stores it back into the attribute.
\<close>

definition iadd_errors :: "(heap, spreadsheet_error list) prog \<Rightarrow> (heap, unit) prog" where
  "iadd_errors m = bnd get_errors (\<lambda>old. bnd m (\<lambda>new. set_errors (old @ new)))"

subsection \<open>_ValidateEntityCodes\<close>

text \<open>
  \<^verbatim>\<open>collections.Counter(xs).items()\<close>: the distinct elements of \<open>xs\<close> in the order of
  their first occurrence, each with its number of occurrences.
\<close>

fun counter_add :: "('a \<times> nat) list \<Rightarrow> 'a \<Rightarrow> ('a \<times> nat) list" where
  "counter_add [] k = [(k, 1)]"
| "counter_add ((k', n) # kvs) k =
     (if k' = k then (k', n + 1) # kvs else (k', n) # counter_add kvs k)"

definition Counter_items :: "'a list \<Rightarrow> ('a \<times> nat) list" where
  "Counter_items xs = foldl counter_add [] xs"

definition duplicate_message :: "constants \<Rightarrow> string \<Rightarrow> string" where
  "duplicate_message c duplicate =
     ''Entity Code: '' @ duplicate @ '' is defined more than once in '' @ ENTITIES c @ '' table.''"

definition ValidateEntityCodes :: "constants \<Rightarrow> sheet \<Rightarrow> exn + spreadsheet_error list" where
  "ValidateEntityCodes c sheet =
     run_local
       (bnd (comprehension sheet (\<lambda>row. getitem row (ENTITY_CODE c))) (\<lambda>list_of_codes.
          let duplicates = map fst (filter (\<lambda>(code, count). count > 1) (Counter_items list_of_codes))
          in for_each duplicates (\<lambda>duplicate.
               append_item (DuplicateCodeError duplicate (duplicate_message c duplicate)))))
       []"

subsection \<open>ValidateFacilitiesGuids\<close>

definition guid_message :: "constants \<Rightarrow> string \<Rightarrow> string" where
  "guid_message c code =
     code @ '' in '' @ FACILITIES_NAMESPACE c
       @ '' namespace must have a guid obtained through DB API export building config operation.''"

text \<open>The loop enumerates the sheet with no start index, so from 0.\<close>

definition ValidateFacilitiesGuids :: "constants \<Rightarrow> sheet \<Rightarrow> exn + spreadsheet_error list" where
  "ValidateFacilitiesGuids c sheet =
     run_local
       (for_each (enumerate 0 sheet) (\<lambda>(row_number, row).
          bnd (getitem row (BC_GUID c)) (\<lambda>guid.
            if guid = [] then
              bnd (getitem row (NAMESPACE c)) (\<lambda>namespace.
                if namespace = FACILITIES_NAMESPACE c then
                  bnd (getitem row (ENTITY_CODE c)) (\<lambda>code.
                    append_item (MissingSpreadsheetValueError (ENTITIES c) row_number (BC_GUID c)
                              (guid_message c code)))
                else ret ())
            else ret ())))
       []"

subsection \<open>_ValidateHeaders\<close>

text \<open>
  One pass of the loop over the rows: the keys of the row join \<open>parsed_headers\<close>, and the
  column headers not in \<open>parsed_headers\<close> so far join \<open>header_difference\<close>.
\<close>

definition headers_step :: "string list \<Rightarrow> row \<Rightarrow> string set \<times> string set \<Rightarrow> string set \<times> string set" where
  "headers_step column_headers row = (\<lambda>(parsed_headers, header_difference).
     let parsed_headers' = parsed_headers \<union> dom row
     in (parsed_headers', header_difference \<union> (set column_headers - parsed_headers')))"

definition header_message :: "string \<Rightarrow> string \<Rightarrow> string" where
  "header_message table header = table @ '' missing required column header: '' @ header"

text \<open>
  Python does not fix the order in which it iterates over a set of strings. The model
  iterates over \<open>header_difference\<close> in the order of \<open>column_headers\<close>; what is proved
  below speaks of which errors are returned and how many, never of their order.
\<close>

definition set_iteration :: "string set \<Rightarrow> string list \<Rightarrow> string list" where
  "set_iteration S universe = filter (\<lambda>x. x \<in> S) (remdups universe)"

definition ValidateHeaders :: "string \<Rightarrow> sheet \<Rightarrow> string list \<Rightarrow> spreadsheet_error list" where
  "ValidateHeaders table parsed_sheet column_headers =
     (let (parsed_headers, header_difference) =
            fold (headers_step column_headers) parsed_sheet ({}, {})
      in if header_difference \<noteq> {}
         then map (\<lambda>header. SpreadsheetHeaderError table header (header_message table header))
                (set_iteration header_difference column_headers)
         else [])"

subsection \<open>_ValidateContents\<close>

definition missing_value_message :: "string \<Rightarrow> string \<Rightarrow> string" where
  "missing_value_message table header = table @ '' entry must have a '' @ header"

text \<open>
  The method works on the attribute \<^verbatim>\<open>self.validation_errors\<close>, which it first rebinds
  to a new empty list, and returns that list. \<^verbatim>\<open>not row[header]\<close> holds of the empty
  string and raises at a missing key.
\<close>

definition ValidateContents :: "string \<Rightarrow> sheet \<Rightarrow> string list \<Rightarrow> (heap, spreadsheet_error list) prog" where
  "ValidateContents table parsed_sheet col_headers_values =
     bnd (set_errors []) (\<lambda>_.
     bnd (for_each (enumerate ROW_START_INDEX parsed_sheet) (\<lambda>(row_number, row).
            for_each col_headers_values (\<lambda>header.
              bnd (getitem row header) (\<lambda>v.
                if v = [] then
                  append_error (MissingSpreadsheetValueError table row_number header
                                  (missing_value_message table header))
                else ret ())))) (\<lambda>_.
     get_errors))"

subsection \<open>_ValidateFieldsAcrossSheets\<close>

text \<open>
  Every read is a \<^verbatim>\<open>dict.get\<close>, so nothing raises and a missing code is \<^verbatim>\<open>None\<close>, in the
  row as well as in the set of entity codes.
\<close>

definition ValidateFieldsAcrossSheets :: "constants \<Rightarrow> spreadsheet \<Rightarrow> (heap, spreadsheet_error list) prog" where
  "ValidateFieldsAcrossSheets c ps =
     bnd (set_errors []) (\<lambda>_.
     let fields = get_or_empty ps (ENTITY_FIELDS c);
         entities = get_or_empty ps (ENTITIES c)
     in
     bnd (for_each (enumerate ROW_START_INDEX fields) (\<lambda>(row_num, field).
            let field_reporting_entity_code = field (REPORTING_ENTITY_CODE c);
                field_entity_code = field (ENTITY_CODE c);
                entity_codes = set (map (\<lambda>entity. entity (ENTITY_CODE c)) entities)
            in
            bnd (if field_entity_code \<notin> entity_codes then
                   append_error (CrossSheetDependencyError (ENTITY_FIELDS c) (ENTITIES c) row_num
                                   (ENTITY_CODE c) field_entity_code)
                 else ret ()) (\<lambda>_.
            if field_reporting_entity_code \<notin> entity_codes then
              append_error (CrossSheetDependencyError (ENTITY_FIELDS c) (ENTITIES c) row_num
                              (REPORTING_ENTITY_CODE c) field_reporting_entity_code)
            else ret ()))) (\<lambda>_.
     get_errors))"

subsection \<open>_ValidateStatesAcrossSheets\<close>

text \<open>
  The inner loop over the fields, on the local counter \<open>num_dependencies\<close>. The state's
  two values come from \<^verbatim>\<open>dict.get\<close> (an option); the field's are indexed and raise at a
  missing key, the second of each pair only when the first comparison succeeded.
\<close>

definition count_dependencies :: "constants \<Rightarrow> string option \<Rightarrow> string option \<Rightarrow> sheet \<Rightarrow> exn + nat" where
  "count_dependencies c entity_code reporting_field_name field_rows =
     run_local
       (for_each field_rows (\<lambda>field.
          bnd (getitem field (ENTITY_CODE c)) (\<lambda>field_entity_code.
          bnd (if entity_code = Some field_entity_code then
                 bnd (getitem field (STANDARD_FIELD_NAME c)) (\<lambda>field_name.
                   if Some field_name = reporting_field_name then increment else ret ())
               else ret ()) (\<lambda>_.
          bnd (getitem field (REPORTING_ENTITY_CODE c)) (\<lambda>field_reporting_code.
          if entity_code = Some field_reporting_code then
            bnd (getitem field (REPORTING_ENTITY_FIELD_NAME c)) (\<lambda>field_reporting_name.
              if Some field_reporting_name = reporting_field_name then increment else ret ())
          else ret ())))))
       0"

definition ValidateStatesAcrossSheets :: "constants \<Rightarrow> spreadsheet \<Rightarrow> exn + spreadsheet_error list" where
  "ValidateStatesAcrossSheets c ps =
     (let states = get_or_empty ps (STATES c);
          fields = get_or_empty ps (ENTITY_FIELDS c)
      in run_local
           (for_each (enumerate ROW_START_INDEX states) (\<lambda>(row_num, state).
              let reporting_field_name = state (STANDARD_FIELD_NAME c);
                  entity_code = state (ENTITY_CODE c)
              in
              bnd (call (count_dependencies c entity_code reporting_field_name fields))
                (\<lambda>num_dependencies.
                   if num_dependencies \<noteq> 1 then
                     append_item (CrossSheetDependencyError (STATES c) (ENTITY_FIELDS c) row_num
                               (STANDARD_FIELD_NAME c) reporting_field_name)
                   else ret ())))
           [])"

subsection \<open>_ValidateConnections\<close>

text \<open>
  Both branches construct the error with \<^verbatim>\<open>missing_code=connection[SOURCE_ENTITY_CODE]\<close>
  and \<^verbatim>\<open>present_code=connection[TARGET_ENTITY_CODE]\<close>.
\<close>

definition ValidateConnections :: "constants \<Rightarrow> spreadsheet \<Rightarrow> exn + spreadsheet_error list" where
  "ValidateConnections c ps =
     run_local
       (bnd (getitem ps (CONNECTIONS c)) (\<lambda>connections_sheet.
        bnd (getitem ps (ENTITIES c)) (\<lambda>entities_sheet.
        bnd (getitem ps (SITES c)) (\<lambda>sites_sheet.
        bnd (comprehension entities_sheet (\<lambda>row. getitem row (ENTITY_CODE c))) (\<lambda>entity_codes.
        bnd (comprehension sites_sheet (\<lambda>row. getitem row (BUILDING_CODE c))) (\<lambda>building_codes.
        let codes = set entity_codes \<union> set building_codes in
        for_each (enumerate ROW_START_INDEX connections_sheet) (\<lambda>(row_number, connection).
          bnd (getitem connection (SOURCE_ENTITY_CODE c)) (\<lambda>source.
          bnd (if source \<notin> codes then
                 bnd (getitem connection (SOURCE_ENTITY_CODE c)) (\<lambda>missing_code.
                 bnd (getitem connection (TARGET_ENTITY_CODE c)) (\<lambda>present_code.
                 append_item (ConnectionDependencyError row_number missing_code present_code)))
               else ret ()) (\<lambda>_.
          bnd (getitem connection (TARGET_ENTITY_CODE c)) (\<lambda>target.
          if target \<notin> codes then
            bnd (getitem connection (SOURCE_ENTITY_CODE c)) (\<lambda>missing_code.
            bnd (getitem connection (TARGET_ENTITY_CODE c)) (\<lambda>present_code.
            append_item (ConnectionDependencyError row_number missing_code present_code)))
          else ret ()))))))))))
       []"

subsection \<open>_LogErrors and Validate\<close>

text \<open>
  \<^verbatim>\<open>_LogErrors\<close> hands every error of the list to the logger, in order. The rendering
  of an error (\<^verbatim>\<open>GetErrorMessage\<close>) and the logging module are outside these sources;
  the model records which errors were logged.
\<close>

definition LogErrors :: "spreadsheet_error list \<Rightarrow> (heap, unit) prog" where
  "LogErrors errors = (\<lambda>h. (Inr (), h\<lparr>logged := logged h @ errors\<rparr>))"

type_synonym parameter_list = "string \<times> sheet \<times> string list \<times> string list"

text \<open>The list \<^verbatim>\<open>validation_parameters\<close>; the five tables are indexed in this order.\<close>

definition validation_parameters :: "constants \<Rightarrow> spreadsheet \<Rightarrow> (heap, parameter_list list) prog" where
  "validation_parameters c ps =
     bnd (getitem ps (SITES c)) (\<lambda>sites.
     bnd (getitem ps (ENTITIES c)) (\<lambda>entities.
     bnd (getitem ps (ENTITY_FIELDS c)) (\<lambda>fields.
     bnd (getitem ps (STATES c)) (\<lambda>states.
     bnd (getitem ps (CONNECTIONS c)) (\<lambda>connections.
     ret [(SITES c, sites, REQUIRED_SITE_HEADERS c, ALL_SITE_HEADERS c),
          (ENTITIES c, entities, REQUIRED_ENTITY_HEADERS c, ALL_ENTITY_HEADERS c),
          (ENTITY_FIELDS c, fields, REQUIRED_FIELD_HEADERS c, ALL_FIELD_HEADERS c),
          (STATES c, states, REQUIRED_STATE_HEADERS c, ALL_STATE_HEADERS c),
          (CONNECTIONS c, connections, REQUIRED_CONNECTION_HEADERS c,
             ALL_CONNECTION_HEADERS c)])))))"

text \<open>Lines 96 to 103 of the source: duplicate codes, facilities guids, headers of every table.\<close>

definition structural_phase :: "constants \<Rightarrow> spreadsheet \<Rightarrow> parameter_list list \<Rightarrow> (heap, unit) prog" where
  "structural_phase c ps params =
     bnd (getitem ps (ENTITIES c)) (\<lambda>entities_sheet.
     bnd (iadd_errors (call (ValidateEntityCodes c entities_sheet))) (\<lambda>_.
     bnd (iadd_errors (call (ValidateFacilitiesGuids c entities_sheet))) (\<lambda>_.
     for_each params (\<lambda>(table, parsed_sheet, required, column_headers).
       iadd_errors (ret (ValidateHeaders table parsed_sheet column_headers))))))"

text \<open>Lines 107 to 117: the body of \<^verbatim>\<open>if not self.validation_errors\<close>.\<close>

definition content_phase :: "constants \<Rightarrow> spreadsheet \<Rightarrow> parameter_list list \<Rightarrow> (heap, unit) prog" where
  "content_phase c ps params =
     bnd (for_each params (\<lambda>(table, parsed_sheet, required, column_headers).
            iadd_errors (ValidateContents table parsed_sheet required))) (\<lambda>_.
     bnd (iadd_errors (ValidateFieldsAcrossSheets c ps)) (\<lambda>_.
     bnd (iadd_errors (call (ValidateStatesAcrossSheets c ps))) (\<lambda>_.
     iadd_errors (call (ValidateConnections c ps)))))"

definition Validate :: "constants \<Rightarrow> (heap, bool) prog" where
  "Validate c =
     bnd get_parsed (\<lambda>ps.
     bnd (validation_parameters c ps) (\<lambda>params.
     bnd (structural_phase c ps params) (\<lambda>_.
     bnd get_errors (\<lambda>errors_after_headers.
     bnd (if errors_after_headers = [] then content_phase c ps params else ret ()) (\<lambda>_.
     bnd get_errors (\<lambda>errors.
     if errors \<noteq> [] then bnd (LogErrors errors) (\<lambda>_. ret False) else ret True))))))"

subsection \<open>One configuration, for concrete runs\<close>

text \<open>
  A configuration in the shape section 6 of the specification describes: the required
  headers of a table are among all its headers. The names are illustrative.
\<close>

definition example_constants :: constants where
  "example_constants = \<lparr>
     SITES = ''Site'',
     ENTITIES = ''Entities'',
     ENTITY_FIELDS = ''Entity Fields'',
     STATES = ''States'',
     CONNECTIONS = ''Connections'',
     REQUIRED_SITE_HEADERS = [''Building Code''],
     ALL_SITE_HEADERS = [''Building Code''],
     REQUIRED_ENTITY_HEADERS = [''Entity Code'', ''Namespace''],
     ALL_ENTITY_HEADERS = [''Entity Code'', ''Guid'', ''Namespace''],
     REQUIRED_FIELD_HEADERS = [''Field'', ''Entity Code''],
     ALL_FIELD_HEADERS = [''Field'', ''Entity Code'', ''Reporting Code'', ''Reporting Field''],
     REQUIRED_STATE_HEADERS = [''Entity Code'', ''Field''],
     ALL_STATE_HEADERS = [''Entity Code'', ''Field''],
     REQUIRED_CONNECTION_HEADERS = [''Source'', ''Target''],
     ALL_CONNECTION_HEADERS = [''Source'', ''Target''],
     BC_GUID = ''Guid'',
     BUILDING_CODE = ''Building Code'',
     ENTITY_CODE = ''Entity Code'',
     FACILITIES_NAMESPACE = ''FACILITIES'',
     NAMESPACE = ''Namespace'',
     REPORTING_ENTITY_CODE = ''Reporting Code'',
     REPORTING_ENTITY_FIELD_NAME = ''Reporting Field'',
     SOURCE_ENTITY_CODE = ''Source'',
     STANDARD_FIELD_NAME = ''Field'',
     TARGET_ENTITY_CODE = ''Target''\<rparr>"

subsection \<open>Notions the statements below use\<close>

text \<open>The entity codes of a sheet whose rows all have the entity-code column, in row order.\<close>

definition entity_codes_of :: "constants \<Rightarrow> sheet \<Rightarrow> string list" where
  "entity_codes_of c sheet = map (\<lambda>row. the (row (ENTITY_CODE c))) sheet"

definition codes_sheet :: "constants \<Rightarrow> string list \<Rightarrow> sheet" where
  "codes_sheet c codes = map (\<lambda>code. [ENTITY_CODE c \<mapsto> code]) codes"

text \<open>
  The list \<^verbatim>\<open>validation_parameters\<close> as a value, for a spreadsheet that has the five
  tables.
\<close>

definition tables_of :: "constants \<Rightarrow> spreadsheet \<Rightarrow> parameter_list list" where
  "tables_of c ps =
     [(SITES c, get_or_empty ps (SITES c), REQUIRED_SITE_HEADERS c, ALL_SITE_HEADERS c),
      (ENTITIES c, get_or_empty ps (ENTITIES c), REQUIRED_ENTITY_HEADERS c, ALL_ENTITY_HEADERS c),
      (ENTITY_FIELDS c, get_or_empty ps (ENTITY_FIELDS c), REQUIRED_FIELD_HEADERS c,
         ALL_FIELD_HEADERS c),
      (STATES c, get_or_empty ps (STATES c), REQUIRED_STATE_HEADERS c, ALL_STATE_HEADERS c),
      (CONNECTIONS c, get_or_empty ps (CONNECTIONS c), REQUIRED_CONNECTION_HEADERS c,
         ALL_CONNECTION_HEADERS c)]"

text \<open>
  The dependency rule of section 4.6 of the specification, in its words: branch (a), the
  field's entity code equals the state's entity code and the field's standard field name
  equals the state's reported field name; branch (b), the field's reporting entity code
  equals the state's entity code and the field's reporting field name equals the state's
  reported field name. The two branches are counted independently and summed over the
  fields.
\<close>

definition branch_a :: "constants \<Rightarrow> row \<Rightarrow> row \<Rightarrow> bool" where
  "branch_a c state field \<longleftrightarrow>
     field (ENTITY_CODE c) = state (ENTITY_CODE c)
     \<and> field (STANDARD_FIELD_NAME c) = state (STANDARD_FIELD_NAME c)"

definition branch_b :: "constants \<Rightarrow> row \<Rightarrow> row \<Rightarrow> bool" where
  "branch_b c state field \<longleftrightarrow>
     field (REPORTING_ENTITY_CODE c) = state (ENTITY_CODE c)
     \<and> field (REPORTING_ENTITY_FIELD_NAME c) = state (STANDARD_FIELD_NAME c)"

definition dependency_sum :: "constants \<Rightarrow> row \<Rightarrow> sheet \<Rightarrow> nat" where
  "dependency_sum c state field_rows =
     (\<Sum>field \<leftarrow> field_rows. (if branch_a c state field then 1 else 0)
                              + (if branch_b c state field then 1 else 0))"

definition field_columns :: "constants \<Rightarrow> string list" where
  "field_columns c = [ENTITY_CODE c, STANDARD_FIELD_NAME c, REPORTING_ENTITY_CODE c,
                      REPORTING_ENTITY_FIELD_NAME c]"

definition state_error :: "constants \<Rightarrow> nat \<Rightarrow> row \<Rightarrow> spreadsheet_error" where
  "state_error c row_num state =
     CrossSheetDependencyError (STATES c) (ENTITY_FIELDS c) row_num (STANDARD_FIELD_NAME c)
       (state (STANDARD_FIELD_NAME c))"

subsection \<open>Spreadsheets for concrete runs, in the example configuration\<close>

definition consistent_spreadsheet :: spreadsheet where
  "consistent_spreadsheet =
     [''Site'' \<mapsto> [[''Building Code'' \<mapsto> ''B1'']],
      ''Entities'' \<mapsto> [[''Entity Code'' \<mapsto> ''E1'', ''Guid'' \<mapsto> ''g1'', ''Namespace'' \<mapsto> ''HVAC'']],
      ''Entity Fields'' \<mapsto> [[''Field'' \<mapsto> ''temp'', ''Entity Code'' \<mapsto> ''E1'',
                            ''Reporting Code'' \<mapsto> ''E1'', ''Reporting Field'' \<mapsto> ''t1'']],
      ''States'' \<mapsto> [[''Entity Code'' \<mapsto> ''E1'', ''Field'' \<mapsto> ''temp'']],
      ''Connections'' \<mapsto> [[''Source'' \<mapsto> ''B1'', ''Target'' \<mapsto> ''E1'']]]"

definition duplicated_spreadsheet :: spreadsheet where
  "duplicated_spreadsheet =
     consistent_spreadsheet(''Entities'' \<mapsto>
       [[''Entity Code'' \<mapsto> ''E1'', ''Guid'' \<mapsto> ''g1'', ''Namespace'' \<mapsto> ''HVAC''],
        [''Entity Code'' \<mapsto> ''E1'', ''Guid'' \<mapsto> ''g2'', ''Namespace'' \<mapsto> ''HVAC'']])"

definition empty_cell_spreadsheet :: spreadsheet where
  "empty_cell_spreadsheet = consistent_spreadsheet(''Site'' \<mapsto> [[''Building Code'' \<mapsto> '''']])"

definition ragged_spreadsheet :: spreadsheet where
  "ragged_spreadsheet =
     consistent_spreadsheet(''Site'' \<mapsto> [[''Building Code'' \<mapsto> ''''], Map.empty])"

definition sparse_entities :: sheet where
  "sparse_entities =
     [[''Entity Code'' \<mapsto> ''E1'', ''Namespace'' \<mapsto> ''HVAC''],
      [''Entity Code'' \<mapsto> ''E2'', ''Guid'' \<mapsto> ''g2'', ''Namespace'' \<mapsto> ''HVAC'']]"

definition facilities_entities :: sheet where
  "facilities_entities =
     [[''Entity Code'' \<mapsto> ''E1'', ''Guid'' \<mapsto> '''', ''Namespace'' \<mapsto> ''FACILITIES'']]"

definition dangling_target_spreadsheet :: spreadsheet where
  "dangling_target_spreadsheet =
     [''Site'' \<mapsto> [[''Building Code'' \<mapsto> ''B1'']],
      ''Entities'' \<mapsto> [],
      ''Connections'' \<mapsto> [[''Source'' \<mapsto> ''B1'', ''Target'' \<mapsto> ''X'']]]"

definition states_spreadsheet :: spreadsheet where
  "states_spreadsheet =
     [''Entity Fields'' \<mapsto>
        [[''Field'' \<mapsto> ''temp'', ''Entity Code'' \<mapsto> ''E1'',
          ''Reporting Code'' \<mapsto> ''R1'', ''Reporting Field'' \<mapsto> ''t''],
         [''Field'' \<mapsto> ''hum'', ''Entity Code'' \<mapsto> ''E2'',
          ''Reporting Code'' \<mapsto> ''E2'', ''Reporting Field'' \<mapsto> ''hum'']],
      ''States'' \<mapsto>
        [[''Entity Code'' \<mapsto> ''E9'', ''Field'' \<mapsto> ''temp''],
         [''Entity Code'' \<mapsto> ''E2'', ''Field'' \<mapsto> ''hum''],
         [''Entity Code'' \<mapsto> ''E1'', ''Field'' \<mapsto> ''temp'']]]"

definition missing_connections_spreadsheet :: spreadsheet where
  "missing_connections_spreadsheet = consistent_spreadsheet(''Connections'' := None)"

definition ragged_fields_spreadsheet :: spreadsheet where
  "ragged_fields_spreadsheet =
     consistent_spreadsheet(
       ''Entity Fields'' \<mapsto>
         [[''Field'' \<mapsto> ''temp'', ''Entity Code'' \<mapsto> ''E1'',
           ''Reporting Code'' \<mapsto> ''E1'', ''Reporting Field'' \<mapsto> ''t1''],
          [''Field'' \<mapsto> ''hum'', ''Entity Code'' \<mapsto> ''E1'']],
       ''States'' \<mapsto> [[''Entity Code'' \<mapsto> ''E9'', ''Field'' \<mapsto> ''temp'']])"

definition keyless_row_entities :: sheet where
  "keyless_row_entities = codes_sheet example_constants [''A'', ''A''] @ [Map.empty]"

section \<open>Properties\<close>

subsection \<open>Running programs\<close>

lemma bnd_Inr: "m s = (Inr x, s') \<Longrightarrow> bnd m f s = f x s'"
  by (simp add: bnd_def)

lemma bnd_Inl: "m s = (Inl e, s') \<Longrightarrow> bnd m f s = (Inl e, s')"
  by (simp add: bnd_def)

lemma getitem_Some: "d k = Some v \<Longrightarrow> getitem d k s = (Inr v, s)"
  by (simp add: getitem_def ret_def)

lemma getitem_None: "d k = None \<Longrightarrow> getitem d k s = (Inl (KeyError k), s)"
  by (simp add: getitem_def raise_def)

text \<open>A loop whose body never raises is a fold of its effect on the state.\<close>

lemma for_each_steps:
  "(\<And>x s. x \<in> set xs \<Longrightarrow> body x s = (Inr (), step x s)) \<Longrightarrow>
   for_each xs body s = (Inr (), fold step xs s)"
proof (induction xs arbitrary: s)
  case Nil
  then show ?case by (simp add: ret_def)
next
  case (Cons x xs)
  have "body x s = (Inr (), step x s)" using Cons.prems by simp
  moreover have "for_each xs body (step x s) = (Inr (), fold step xs (step x s))"
    using Cons.IH Cons.prems by simp
  ultimately show ?case by (simp add: bnd_def)
qed

lemma fold_append_each: "fold (\<lambda>x l. l @ g x) xs l = l @ concat (map g xs)"
  by (induction xs arbitrary: l) simp_all

lemma comprehension_total:
  "(\<And>x. x \<in> set xs \<Longrightarrow> f x s = (Inr (g x), s)) \<Longrightarrow> comprehension xs f s = (Inr (map g xs), s)"
proof (induction xs)
  case Nil
  then show ?case by (simp add: ret_def)
next
  case (Cons x xs)
  then show ?case by (simp add: bnd_def ret_def)
qed

subsection \<open>Counting codes\<close>

lemma map_of_counter_add:
  "map_of (counter_add kvs k) =
     (map_of kvs)(k \<mapsto> (case map_of kvs k of None \<Rightarrow> 1 | Some n \<Rightarrow> n + 1))"
  by (induction kvs k rule: counter_add.induct) (auto simp: fun_eq_iff)

lemma keys_counter_add: "fst ` set (counter_add kvs k) = insert k (fst ` set kvs)"
  by (induction kvs k rule: counter_add.induct) auto

lemma distinct_counter_add: "distinct (map fst kvs) \<Longrightarrow> distinct (map fst (counter_add kvs k))"
  by (induction kvs k rule: counter_add.induct) (auto simp: keys_counter_add)

lemma distinct_foldl_counter_add:
  "distinct (map fst acc) \<Longrightarrow> distinct (map fst (foldl counter_add acc xs))"
  by (induction xs arbitrary: acc) (simp_all add: distinct_counter_add)

lemma map_of_foldl_counter_add:
  "map_of (foldl counter_add acc xs) k =
     (case map_of acc k of
        None \<Rightarrow> if k \<in> set xs then Some (count_list xs k) else None
      | Some n \<Rightarrow> Some (n + count_list xs k))"
proof (induction xs arbitrary: acc)
  case Nil
  then show ?case by (simp split: option.splits)
next
  case (Cons x xs)
  show ?case
    by (simp add: Cons.IH map_of_counter_add split: option.splits)
qed

lemma distinct_Counter_items: "distinct (map fst (Counter_items xs))"
  by (simp add: Counter_items_def distinct_foldl_counter_add)

lemma Counter_items_iff:
  "(k, n) \<in> set (Counter_items xs) \<longleftrightarrow> k \<in> set xs \<and> n = count_list xs k"
proof -
  have "(k, n) \<in> set (Counter_items xs) \<longleftrightarrow> map_of (Counter_items xs) k = Some n"
    using distinct_Counter_items by (metis map_of_eq_Some_iff)
  also have "\<dots> \<longleftrightarrow> k \<in> set xs \<and> n = count_list xs k"
    by (auto simp: Counter_items_def map_of_foldl_counter_add)
  finally show ?thesis .
qed

text \<open>The list \<^verbatim>\<open>duplicates\<close> of the source: each code counted more than once, once.\<close>

lemma distinct_duplicates:
  "distinct (map fst (filter (\<lambda>(code, count). count > 1) (Counter_items xs)))"
  by (rule distinct_map_filter) (rule distinct_Counter_items)

lemma set_duplicates:
  "set (map fst (filter (\<lambda>(code, count). count > 1) (Counter_items xs))) = {k. 1 < count_list xs k}"
proof -
  have "k \<in> set (map fst (filter (\<lambda>(code, count). count > 1) (Counter_items xs)))
          \<longleftrightarrow> 1 < count_list xs k" for k
  proof -
    have "k \<in> set (map fst (filter (\<lambda>(code, count). count > 1) (Counter_items xs)))
            \<longleftrightarrow> (\<exists>n. (k, n) \<in> set (Counter_items xs) \<and> 1 < n)"
      by force
    also have "\<dots> \<longleftrightarrow> k \<in> set xs \<and> 1 < count_list xs k"
      by (simp add: Counter_items_iff)
    also have "\<dots> \<longleftrightarrow> 1 < count_list xs k"
      by (auto simp: count_list_0_iff intro: ccontr)
    finally show ?thesis .
  qed
  then show ?thesis by blast
qed

lemma ValidateEntityCodes_total:
  assumes "\<And>row. row \<in> set sheet \<Longrightarrow> row (ENTITY_CODE c) \<noteq> None"
  shows "ValidateEntityCodes c sheet =
           Inr (map (\<lambda>d. DuplicateCodeError d (duplicate_message c d))
                  (map fst (filter (\<lambda>(code, count). count > 1)
                     (Counter_items (entity_codes_of c sheet)))))"
proof -
  have comp: "comprehension sheet (\<lambda>row. getitem row (ENTITY_CODE c)) s =
                (Inr (entity_codes_of c sheet), s)" for s :: "spreadsheet_error list"
    unfolding entity_codes_of_def
  proof (rule comprehension_total)
    fix row assume "row \<in> set sheet"
    then obtain v where "row (ENTITY_CODE c) = Some v" using assms by blast
    then show "getitem row (ENTITY_CODE c) s = (Inr (the (row (ENTITY_CODE c))), s)"
      by (simp add: getitem_Some)
  qed
  have loop: "for_each ds (\<lambda>d. append_item (DuplicateCodeError d (duplicate_message c d))) l =
                (Inr (), l @ map (\<lambda>d. DuplicateCodeError d (duplicate_message c d)) ds)" for ds l
    by (induction ds arbitrary: l) (simp_all add: ret_def bnd_def append_item_def)
  show ?thesis
    by (simp add: ValidateEntityCodes_def run_local_def bnd_Inr [OF comp] loop)
qed

lemma codes_sheet_has_code: "row \<in> set (codes_sheet c codes) \<Longrightarrow> row (ENTITY_CODE c) \<noteq> None"
  by (auto simp: codes_sheet_def)

lemma entity_codes_of_codes_sheet: "entity_codes_of c (codes_sheet c codes) = codes"
  by (induction codes) (simp_all add: entity_codes_of_def codes_sheet_def)

text \<open>
  Claim C7, amended. On an Entities sheet in which every row has the entity-code column,
  the uniqueness validator returns exactly one DuplicateCodeError for each entity code
  that occurs more than once, however often the code repeats, and nothing else; on the
  codes A, B, A, C, B, B it returns two errors, one for A and one for B.
\<close>

theorem ValidateEntityCodes_one_error_per_duplicate_code:
  "((\<forall>row \<in> set sheet. row (ENTITY_CODE c) \<noteq> None) \<longrightarrow>
      (\<exists>duplicates.
         ValidateEntityCodes c sheet =
           Inr (map (\<lambda>d. DuplicateCodeError d (duplicate_message c d)) duplicates)
         \<and> distinct duplicates
         \<and> set duplicates = {code. 1 < count_list (entity_codes_of c sheet) code}))
   \<and> ValidateEntityCodes c (codes_sheet c [''A'', ''B'', ''A'', ''C'', ''B'', ''B'']) =
       Inr [DuplicateCodeError ''A'' (duplicate_message c ''A''),
            DuplicateCodeError ''B'' (duplicate_message c ''B'')]"
proof (intro conjI impI)
  assume rows: "\<forall>row \<in> set sheet. row (ENTITY_CODE c) \<noteq> None"
  let ?dups = "map fst (filter (\<lambda>(code, count). count > 1)
                 (Counter_items (entity_codes_of c sheet)))"
  have "ValidateEntityCodes c sheet =
          Inr (map (\<lambda>d. DuplicateCodeError d (duplicate_message c d)) ?dups)"
    using rows by (intro ValidateEntityCodes_total) blast
  moreover have "distinct ?dups" by (rule distinct_duplicates)
  moreover have "set ?dups = {code. 1 < count_list (entity_codes_of c sheet) code}"
    by (rule set_duplicates)
  ultimately show "\<exists>duplicates.
         ValidateEntityCodes c sheet =
           Inr (map (\<lambda>d. DuplicateCodeError d (duplicate_message c d)) duplicates)
         \<and> distinct duplicates
         \<and> set duplicates = {code. 1 < count_list (entity_codes_of c sheet) code}"
    by blast
next
  show "ValidateEntityCodes c (codes_sheet c [''A'', ''B'', ''A'', ''C'', ''B'', ''B'']) =
       Inr [DuplicateCodeError ''A'' (duplicate_message c ''A''),
            DuplicateCodeError ''B'' (duplicate_message c ''B'')]"
    by (simp add: ValidateEntityCodes_total codes_sheet_has_code entity_codes_of_codes_sheet
        Counter_items_def)
qed

theorem ValidateEntityCodes_one_error_per_duplicate_code_witness:
  "list_all (\<lambda>row. row (ENTITY_CODE example_constants) \<noteq> None)
     (codes_sheet example_constants [''A'', ''A'', ''A''])
   \<and> (\<exists>duplicates.
         ValidateEntityCodes example_constants (codes_sheet example_constants [''A'', ''A'', ''A'']) =
           Inr (map (\<lambda>d. DuplicateCodeError d (duplicate_message example_constants d)) duplicates)
         \<and> distinct duplicates
         \<and> set duplicates = {''A''})"
proof -
  have rows: "\<forall>row \<in> set (codes_sheet example_constants [''A'', ''A'', ''A'']).
                row (ENTITY_CODE example_constants) \<noteq> None"
    by (simp add: codes_sheet_def)
  have counted: "{code. 1 < count_list [''A'', ''A'', ''A''] code} = {''A''}"
    by auto
  show ?thesis
    using rows counted
      ValidateEntityCodes_one_error_per_duplicate_code
        [of "codes_sheet example_constants [''A'', ''A'', ''A'']" example_constants]
    by (simp add: entity_codes_of_codes_sheet list_all_iff)
qed

subsection \<open>Unfolding a concrete run\<close>

lemmas run_defs =
  ret_def raise_def bnd_def getitem_def get_or_empty_def run_local_def call_def append_item_def
  increment_def get_errors_def set_errors_def get_parsed_def append_error_def iadd_errors_def
  LogErrors_def init_def ROW_START_INDEX_def

lemmas validator_defs =
  Validate_def validation_parameters_def structural_phase_def content_phase_def
  ValidateEntityCodes_def ValidateFacilitiesGuids_def ValidateHeaders_def headers_step_def
  set_iteration_def ValidateContents_def ValidateFieldsAcrossSheets_def
  ValidateStatesAcrossSheets_def count_dependencies_def ValidateConnections_def
  Counter_items_def

text \<open>
  Claim C7 as stated, for every Entities sheet, fails. The comprehension over the rows
  indexes the entity-code column of each: on a sheet whose third row has no column, the
  validator raises KeyError and returns no error, although the code A occurs twice.
\<close>

theorem ValidateEntityCodes_raises_on_keyless_row:
  "count_list [''A'', ''A''] ''A'' = 2
   \<and> ValidateEntityCodes example_constants keyless_row_entities =
       Inl (KeyError ''Entity Code'')"
  by (simp add: ValidateEntityCodes_def keyless_row_entities_def codes_sheet_def
      example_constants_def run_defs)

subsection \<open>States against fields\<close>

lemma fold_add_each: "fold (\<lambda>x n. n + w x) xs (n::nat) = n + sum_list (map w xs)"
  by (induction xs arbitrary: n) simp_all

lemma count_dependencies_total:
  assumes "\<And>field. field \<in> set field_rows \<Longrightarrow> set (field_columns c) \<subseteq> dom field"
  shows "count_dependencies c (state (ENTITY_CODE c)) (state (STANDARD_FIELD_NAME c)) field_rows =
           Inr (dependency_sum c state field_rows)"
proof -
  let ?w = "\<lambda>field. (if branch_a c state field then 1 else 0)
                  + (if branch_b c state field then 1 else (0::nat))"
  have "for_each field_rows (\<lambda>field.
          bnd (getitem field (ENTITY_CODE c)) (\<lambda>field_entity_code.
          bnd (if state (ENTITY_CODE c) = Some field_entity_code then
                 bnd (getitem field (STANDARD_FIELD_NAME c)) (\<lambda>field_name.
                   if Some field_name = state (STANDARD_FIELD_NAME c) then increment else ret ())
               else ret ()) (\<lambda>_.
          bnd (getitem field (REPORTING_ENTITY_CODE c)) (\<lambda>field_reporting_code.
          if state (ENTITY_CODE c) = Some field_reporting_code then
            bnd (getitem field (REPORTING_ENTITY_FIELD_NAME c)) (\<lambda>field_reporting_name.
              if Some field_reporting_name = state (STANDARD_FIELD_NAME c) then increment else ret ())
          else ret ())))) 0 = (Inr (), fold (\<lambda>field n. n + ?w field) field_rows 0)"
  proof (rule for_each_steps)
    fix field and n :: nat
    assume "field \<in> set field_rows"
    then have "set (field_columns c) \<subseteq> dom field" by (rule assms)
    then obtain a b r q where
      "field (ENTITY_CODE c) = Some a" "field (STANDARD_FIELD_NAME c) = Some b"
      "field (REPORTING_ENTITY_CODE c) = Some r" "field (REPORTING_ENTITY_FIELD_NAME c) = Some q"
      by (auto simp: field_columns_def)
    then show "bnd (getitem field (ENTITY_CODE c)) (\<lambda>field_entity_code.
          bnd (if state (ENTITY_CODE c) = Some field_entity_code then
                 bnd (getitem field (STANDARD_FIELD_NAME c)) (\<lambda>field_name.
                   if Some field_name = state (STANDARD_FIELD_NAME c) then increment else ret ())
               else ret ()) (\<lambda>_.
          bnd (getitem field (REPORTING_ENTITY_CODE c)) (\<lambda>field_reporting_code.
          if state (ENTITY_CODE c) = Some field_reporting_code then
            bnd (getitem field (REPORTING_ENTITY_FIELD_NAME c)) (\<lambda>field_reporting_name.
              if Some field_reporting_name = state (STANDARD_FIELD_NAME c) then increment else ret ())
          else ret ()))) n = (Inr (), n + ?w field)"
      by (auto simp: bnd_def getitem_def ret_def increment_def branch_a_def branch_b_def)
  qed
  then show ?thesis
    by (simp add: count_dependencies_def run_local_def fold_add_each dependency_sum_def)
qed

lemma ValidateStatesAcrossSheets_total:
  assumes "\<And>field. field \<in> set (get_or_empty ps (ENTITY_FIELDS c)) \<Longrightarrow> set (field_columns c) \<subseteq> dom field"
  shows "ValidateStatesAcrossSheets c ps =
     Inr (concat (map (\<lambda>(row_num, state).
                  if dependency_sum c state (get_or_empty ps (ENTITY_FIELDS c)) \<noteq> 1
                  then [state_error c row_num state] else [])
            (enumerate ROW_START_INDEX (get_or_empty ps (STATES c)))))"
proof -
  let ?fields = "get_or_empty ps (ENTITY_FIELDS c)"
  let ?g = "\<lambda>(row_num, state).
                  if dependency_sum c state ?fields \<noteq> 1
                  then [state_error c row_num state] else []"
  have "for_each (enumerate ROW_START_INDEX (get_or_empty ps (STATES c))) (\<lambda>(row_num, state).
              let reporting_field_name = state (STANDARD_FIELD_NAME c);
                  entity_code = state (ENTITY_CODE c)
              in
              bnd (call (count_dependencies c entity_code reporting_field_name ?fields))
                (\<lambda>num_dependencies.
                   if num_dependencies \<noteq> 1 then
                     append_item (CrossSheetDependencyError (STATES c) (ENTITY_FIELDS c) row_num
                               (STANDARD_FIELD_NAME c) reporting_field_name)
                   else ret ())) [] =
        (Inr (), fold (\<lambda>x l. l @ ?g x) (enumerate ROW_START_INDEX (get_or_empty ps (STATES c))) [])"
    by (rule for_each_steps)
      (auto simp: count_dependencies_total [OF assms] call_def bnd_def ret_def append_item_def
        state_error_def)
  then show ?thesis
    by (simp add: ValidateStatesAcrossSheets_def run_local_def fold_append_each Let_def)
qed

text \<open>
  Claim C6, amended. When every EntityFields row has the four columns the loop indexes
  (entity code, standard field name, reporting entity code, reporting field name), then
  for every States row the state-to-field validator sums, over all EntityFields rows, one
  for branch (a) and one for branch (b), so that a field satisfying both contributes 2;
  it emits exactly one CrossSheetDependencyError for the state, carrying the state's
  reported field name, if and only if this sum is not 1, and nothing else.
\<close>

theorem ValidateStatesAcrossSheets_one_error_unless_sum_is_one:
  assumes "\<forall>field \<in> set (get_or_empty ps (ENTITY_FIELDS c)). set (field_columns c) \<subseteq> dom field"
  shows "ValidateStatesAcrossSheets c ps =
     Inr (concat (map (\<lambda>(row_num, state).
                  if dependency_sum c state (get_or_empty ps (ENTITY_FIELDS c)) \<noteq> 1
                  then [state_error c row_num state] else [])
            (enumerate ROW_START_INDEX (get_or_empty ps (STATES c)))))"
  using assms by (intro ValidateStatesAcrossSheets_total) blast

text \<open>
  A run: three states whose sums are 0, 2 (one field satisfying both branches) and 1; the
  first two are reported, at rows 2 and 3.
\<close>

theorem ValidateStatesAcrossSheets_one_error_unless_sum_is_one_witness:
  "list_all (\<lambda>field. list_all (\<lambda>column. field column \<noteq> None) (field_columns example_constants))
     (get_or_empty states_spreadsheet (ENTITY_FIELDS example_constants))
   \<and> map (\<lambda>state. dependency_sum example_constants state
                    (get_or_empty states_spreadsheet (ENTITY_FIELDS example_constants)))
       (get_or_empty states_spreadsheet (STATES example_constants)) = [0, 2, 1]
   \<and> ValidateStatesAcrossSheets example_constants states_spreadsheet =
       Inr [CrossSheetDependencyError ''States'' ''Entity Fields'' 2 ''Field'' (Some ''temp''),
            CrossSheetDependencyError ''States'' ''Entity Fields'' 3 ''Field'' (Some ''hum'')]"
proof -
  have columns: "\<forall>field \<in> set (get_or_empty states_spreadsheet (ENTITY_FIELDS example_constants)).
                   set (field_columns example_constants) \<subseteq> dom field"
    by (simp add: states_spreadsheet_def example_constants_def get_or_empty_def field_columns_def)
  have sums: "map (\<lambda>state. dependency_sum example_constants state
                    (get_or_empty states_spreadsheet (ENTITY_FIELDS example_constants)))
       (get_or_empty states_spreadsheet (STATES example_constants)) = [0, 2, 1]"
    by (simp add: states_spreadsheet_def example_constants_def get_or_empty_def
        dependency_sum_def branch_a_def branch_b_def)
  show ?thesis
    using ValidateStatesAcrossSheets_one_error_unless_sum_is_one [OF columns] sums
    by (simp add: states_spreadsheet_def example_constants_def get_or_empty_def
        field_columns_def state_error_def ROW_START_INDEX_def list_all_iff)
qed

text \<open>
  Claim C6 as stated, for all EntityFields rows, fails. The second field row of this
  spreadsheet lacks the two reporting columns, which the header check (passed by the
  first row) and the content check (they are not required) let through. The one state
  matches no field, so its sum is 0 and an error is due; the loop indexes the reporting
  entity code of the second field row, and the validator, and Validate with it, raises
  KeyError and emits nothing.
\<close>

theorem ValidateStatesAcrossSheets_raises_on_ragged_field_row:
  "dependency_sum example_constants
     (get_or_empty ragged_fields_spreadsheet (STATES example_constants) ! 0)
     (get_or_empty ragged_fields_spreadsheet (ENTITY_FIELDS example_constants)) = 0
   \<and> ValidateStatesAcrossSheets example_constants ragged_fields_spreadsheet =
       Inl (KeyError ''Reporting Code'')
   \<and> fst (Validate example_constants (init ''log'' ragged_fields_spreadsheet)) =
       Inl (KeyError ''Reporting Code'')"
proof -
  have "dependency_sum example_constants
     (get_or_empty ragged_fields_spreadsheet (STATES example_constants) ! 0)
     (get_or_empty ragged_fields_spreadsheet (ENTITY_FIELDS example_constants)) = 0"
    by (simp add: ragged_fields_spreadsheet_def consistent_spreadsheet_def example_constants_def
        get_or_empty_def dependency_sum_def branch_a_def branch_b_def)
  moreover have "ValidateStatesAcrossSheets example_constants ragged_fields_spreadsheet =
       Inl (KeyError ''Reporting Code'')"
    by (simp add: validator_defs run_defs ragged_fields_spreadsheet_def
        consistent_spreadsheet_def example_constants_def)
  moreover have "fst (Validate example_constants (init ''log'' ragged_fields_spreadsheet)) =
       Inl (KeyError ''Reporting Code'')"
    by (simp add: validator_defs run_defs ragged_fields_spreadsheet_def
        consistent_spreadsheet_def example_constants_def)
  ultimately show ?thesis by simp
qed

subsection \<open>Headers\<close>

text \<open>
  The difference is taken inside the loop, against the keys seen so far, and only ever
  grows: what the loop leaves is the difference against the keys of the first row.
\<close>

lemma headers_step_pair:
  "headers_step ch r (ph, hdiff) = (ph \<union> dom r, hdiff \<union> (set ch - (ph \<union> dom r)))"
  by (simp add: headers_step_def Let_def)

lemma fold_headers_step:
  "fold (headers_step ch) rows (ph, hdiff) =
     (ph \<union> \<Union>(dom ` set rows),
      (case rows of [] \<Rightarrow> hdiff | r # _ \<Rightarrow> hdiff \<union> (set ch - (ph \<union> dom r))))"
proof (induction rows arbitrary: ph hdiff)
  case Nil
  show ?case by simp
next
  case (Cons r rows)
  have "fold (headers_step ch) (r # rows) (ph, hdiff) =
          fold (headers_step ch) rows (ph \<union> dom r, hdiff \<union> (set ch - (ph \<union> dom r)))"
    by (simp add: headers_step_pair)
  also have "\<dots> = (ph \<union> dom r \<union> \<Union>(dom ` set rows),
      (case rows of [] \<Rightarrow> hdiff \<union> (set ch - (ph \<union> dom r))
       | r' # _ \<Rightarrow> hdiff \<union> (set ch - (ph \<union> dom r)) \<union> (set ch - (ph \<union> dom r \<union> dom r'))))"
    by (rule Cons.IH)
  also have "\<dots> = (ph \<union> \<Union>(dom ` set (r # rows)), hdiff \<union> (set ch - (ph \<union> dom r)))"
    by (cases rows) auto
  finally show ?case by simp
qed

lemma ValidateHeaders_no_rows: "ValidateHeaders table [] column_headers = []"
  by (simp add: ValidateHeaders_def)

lemma ValidateHeaders_first_row:
  "ValidateHeaders table (r # rows) column_headers =
     map (\<lambda>header. SpreadsheetHeaderError table header (header_message table header))
       (filter (\<lambda>header. header \<notin> dom r) (remdups column_headers))"
proof -
  let ?missing = "set column_headers - dom r"
  have fold_eq: "fold (headers_step column_headers) (r # rows) ({}, {}) =
          (\<Union>(dom ` set (r # rows)), ?missing)"
    by (simp only: fold_headers_step) simp
  have run: "ValidateHeaders table (r # rows) column_headers =
          (if ?missing \<noteq> {}
           then map (\<lambda>header. SpreadsheetHeaderError table header (header_message table header))
                  (set_iteration ?missing column_headers)
           else [])"
    unfolding ValidateHeaders_def fold_eq by simp
  have same: "set_iteration ?missing column_headers =
              filter (\<lambda>header. header \<notin> dom r) (remdups column_headers)"
    unfolding set_iteration_def by (rule filter_cong) auto
  show ?thesis
  proof (cases "?missing = {}")
    case True
    then have "filter (\<lambda>header. header \<notin> dom r) (remdups column_headers) = []"
      by (auto simp: filter_empty_conv)
    then show ?thesis using True run by simp
  next
    case False
    then show ?thesis using run same by simp
  qed
qed

text \<open>With at least one row, a header the first row lacks is reported exactly once.\<close>

lemma ValidateHeaders_absent_header_once:
  assumes "header \<in> set column_headers" and "header \<notin> dom r"
  shows "length (filter (\<lambda>e. e = SpreadsheetHeaderError table header (header_message table header))
                   (ValidateHeaders table (r # rows) column_headers)) = 1"
proof -
  let ?absent = "filter (\<lambda>header. header \<notin> dom r) (remdups column_headers)"
  have "filter (\<lambda>e. e = SpreadsheetHeaderError table header (header_message table header))
          (ValidateHeaders table (r # rows) column_headers) =
        map (\<lambda>header. SpreadsheetHeaderError table header (header_message table header))
          (filter (\<lambda>x. x = header) ?absent)"
    unfolding ValidateHeaders_first_row filter_map
    by (rule arg_cong [where f = "map _"], rule filter_cong) auto
  moreover have "distinct ?absent" by simp
  then have "length (filter (\<lambda>x. x = header) ?absent) = card ({x. x = header} \<inter> set ?absent)"
    by (rule distinct_length_filter)
  moreover have "{x. x = header} \<inter> set ?absent = {header}"
    using assms by auto
  ultimately show ?thesis by simp
qed

text \<open>
  Claim C4 says that a header which is a key of at least one row of the table is never
  reported. The code reports it whenever the first row lacks it: here the second of two
  Entities rows has the Guid column, and a SpreadsheetHeaderError for Guid is returned.
\<close>

theorem ValidateHeaders_reports_header_of_later_row:
  "''Guid'' \<in> dom (sparse_entities ! 1)
   \<and> ValidateHeaders (ENTITIES example_constants) sparse_entities
       (ALL_ENTITY_HEADERS example_constants) =
     [SpreadsheetHeaderError ''Entities'' ''Guid'' (header_message ''Entities'' ''Guid'')]"
  by (simp add: sparse_entities_def ValidateHeaders_first_row example_constants_def)

text \<open>
  Claim C5 says that a header which is a key of no row is reported exactly once, for every
  number of rows including zero. On a table with no rows the loop body never runs and the
  code reports nothing, although the Sites table has a header.
\<close>

theorem ValidateHeaders_silent_on_no_rows:
  "ValidateHeaders (SITES example_constants) [] (ALL_SITE_HEADERS example_constants) = []
   \<and> ALL_SITE_HEADERS example_constants = [''Building Code'']"
  by (simp add: ValidateHeaders_no_rows example_constants_def)

subsection \<open>Row indices and connection errors\<close>

text \<open>
  Claim C2 says that every error carries the row's position plus 2, so that the first row
  of a sheet is row 2. The facilities-guid validator enumerates from 0: its error for the
  first row of the Entities sheet carries row index 0.
\<close>

theorem ValidateFacilitiesGuids_first_row_is_zero:
  "ValidateFacilitiesGuids example_constants facilities_entities =
     Inr [MissingSpreadsheetValueError ''Entities'' 0 ''Guid''
            (guid_message example_constants ''E1'')]"
  by (simp add: ValidateFacilitiesGuids_def facilities_entities_def example_constants_def
      run_defs guid_message_def)

text \<open>
  Claim C3 says that the error for a side that fails membership carries that side's code
  as the missing code and the other side's code as the present code. For a connection
  whose source B1 is a building code and whose target X is in neither table, the one
  error returned carries the source B1 as the missing code and the target X as the
  present code.
\<close>

theorem ValidateConnections_target_error_carries_source:
  "ValidateConnections example_constants dangling_target_spreadsheet =
     Inr [ConnectionDependencyError 2 ''B1'' ''X'']"
  by (simp add: ValidateConnections_def dangling_target_spreadsheet_def example_constants_def
      run_defs)

subsection \<open>Loops that keep and establish a property of the state\<close>

lemma for_each_invariant:
  assumes "for_each xs body s = (Inr (), s')"
    and "P s"
    and "\<And>x s s'. x \<in> set xs \<Longrightarrow> body x s = (Inr (), s') \<Longrightarrow> P s \<Longrightarrow> P s'"
  shows "P s'"
  using assms
proof (induction xs arbitrary: s)
  case Nil
  then show ?case by (simp add: ret_def)
next
  case (Cons x xs)
  from Cons.prems(1) obtain s1 where
    first: "body x s = (Inr (), s1)" and rest: "for_each xs body s1 = (Inr (), s')"
    by (auto simp: bnd_def split: prod.splits sum.splits)
  have "P s1" by (rule Cons.prems(3) [OF _ first Cons.prems(2)]) simp
  then show ?case
  proof (rule Cons.IH [OF rest])
    fix z t t'
    assume "z \<in> set xs" and "body z t = (Inr (), t')" and "P t"
    then show "P t'" using Cons.prems(3) [of z t t'] by simp
  qed
qed

lemma for_each_establishes:
  assumes "for_each xs body s = (Inr (), s')"
    and "x \<in> set xs"
    and "\<And>s s'. body x s = (Inr (), s') \<Longrightarrow> P s'"
    and "\<And>y s s'. y \<in> set xs \<Longrightarrow> body y s = (Inr (), s') \<Longrightarrow> P s \<Longrightarrow> P s'"
  shows "P s'"
  using assms
proof (induction xs arbitrary: s)
  case Nil
  then show ?case by simp
next
  case (Cons y ys)
  from Cons.prems(1) obtain s1 where
    first: "body y s = (Inr (), s1)" and rest: "for_each ys body s1 = (Inr (), s')"
    by (auto simp: bnd_def split: prod.splits sum.splits)
  show ?case
  proof (cases "x = y")
    case True
    then have "P s1" using first Cons.prems(3) by simp
    then show ?thesis
    proof (rule for_each_invariant [OF rest])
      fix z t t'
      assume "z \<in> set ys" and "body z t = (Inr (), t')" and "P t"
      then show "P t'" using Cons.prems(4) [of z t t'] by simp
    qed
  next
    case False
    then have "x \<in> set ys" using Cons.prems(2) by simp
    then show ?thesis
    proof (rule Cons.IH [OF rest])
      fix t t'
      assume "body x t = (Inr (), t')"
      then show "P t'" by (rule Cons.prems(3))
    next
      fix z t t'
      assume "z \<in> set ys" and "body z t = (Inr (), t')" and "P t"
      then show "P t'" using Cons.prems(4) [of z t t'] by simp
    qed
  qed
qed

lemma iadd_errors_returns:
  assumes "iadd_errors m h = (Inr u, h')"
  shows "\<exists>new hm. m h = (Inr new, hm) \<and> h' = hm\<lparr>validation_errors := validation_errors h @ new\<rparr>"
  using assms
  by (auto simp: iadd_errors_def bnd_def get_errors_def set_errors_def split: prod.splits sum.splits)

lemma iadd_errors_keeps:
  assumes "iadd_errors m h = (Inr u, h')" and "e \<in> set (validation_errors h)"
  shows "e \<in> set (validation_errors h')"
  using iadd_errors_returns [OF assms(1)] assms(2) by auto

lemma iadd_errors_adds:
  assumes "iadd_errors m h = (Inr u, h')" and "\<And>new hm. m h = (Inr new, hm) \<Longrightarrow> e \<in> set new"
  shows "e \<in> set (validation_errors h')"
  using iadd_errors_returns [OF assms(1)] assms(2) by auto

lemma append_error_loop_keeps:
  "e \<in> set (validation_errors h) \<Longrightarrow>
   for_each hs (\<lambda>header. bnd (getitem row header) (\<lambda>v.
       if v = [] then append_error (mk header) else ret ())) h = (Inr (), h') \<Longrightarrow>
   e \<in> set (validation_errors h')"
  by (erule for_each_invariant [rotated])
    (auto simp: bnd_def getitem_def ret_def raise_def append_error_def
      split: option.splits if_splits)

lemma ValidateContents_reports:
  assumes "ValidateContents table parsed_sheet required h = (Inr new, h')"
    and "i < length parsed_sheet" and "header \<in> set required"
    and "(parsed_sheet ! i) header = Some []"
  shows "MissingSpreadsheetValueError table (i + ROW_START_INDEX) header
           (missing_value_message table header) \<in> set new"
proof -
  let ?e = "MissingSpreadsheetValueError table (i + ROW_START_INDEX) header
              (missing_value_message table header)"
  let ?mk = "\<lambda>row_number header. MissingSpreadsheetValueError table row_number header
                  (missing_value_message table header)"
  let ?inner = "\<lambda>(row_number, row). for_each required (\<lambda>header.
              bnd (getitem row header) (\<lambda>v.
                if v = [] then append_error (?mk row_number header) else ret ()))"
  let ?P = "\<lambda>h. ?e \<in> set (validation_errors h)"
  from assms(1) obtain h1 where
    loop: "for_each (enumerate ROW_START_INDEX parsed_sheet) ?inner
             (h\<lparr>validation_errors := []\<rparr>) = (Inr (), h1)"
    and new: "new = validation_errors h1"
    by (auto simp: ValidateContents_def bnd_def set_errors_def get_errors_def
        split: prod.splits sum.splits)
  have row_in: "(i + ROW_START_INDEX, parsed_sheet ! i) \<in> set (enumerate ROW_START_INDEX parsed_sheet)"
    using assms(2) by (simp add: in_set_enumerate_eq add.commute)
  have "?P h1"
  proof (rule for_each_establishes [OF loop row_in])
    fix s s'
    assume "?inner (i + ROW_START_INDEX, parsed_sheet ! i) s = (Inr (), s')"
    then have run: "for_each required (\<lambda>header.
              bnd (getitem (parsed_sheet ! i) header) (\<lambda>v.
                if v = [] then append_error (?mk (i + ROW_START_INDEX) header) else ret ())) s
              = (Inr (), s')"
      by simp
    show "?P s'"
    proof (rule for_each_establishes [OF run assms(3)])
      fix t t'
      assume "bnd (getitem (parsed_sheet ! i) header) (\<lambda>v.
                if v = [] then append_error (?mk (i + ROW_START_INDEX) header) else ret ()) t
              = (Inr (), t')"
      then show "?P t'"
        using assms(4) by (auto simp: bnd_def getitem_def ret_def append_error_def)
    next
      fix y t t'
      assume "bnd (getitem (parsed_sheet ! i) y) (\<lambda>v.
                if v = [] then append_error (?mk (i + ROW_START_INDEX) y) else ret ()) t
              = (Inr (), t')" and "?P t"
      then show "?P t'"
        by (auto simp: bnd_def getitem_def ret_def raise_def append_error_def
            split: option.splits if_splits)
    qed
  next
    fix y s s'
    assume run: "?inner y s = (Inr (), s')" and before: "?P s"
    obtain n r where y: "y = (n, r)" by (cases y)
    show "?P s'"
      using run before unfolding y by (auto intro: append_error_loop_keeps)
  qed
  then show ?thesis by (simp add: new)
qed

subsection \<open>What a returning call of Validate went through\<close>

lemma validation_parameters_state: "snd (validation_parameters c ps h) = h"
  by (simp add: validation_parameters_def bnd_def getitem_def ret_def raise_def
      split: option.splits)

lemma Validate_returns:
  assumes "Validate c h = (Inr valid, h')"
  obtains params h1 h2 where
    "validation_parameters c (parsed_spreadsheet h) h = (Inr params, h)"
    "structural_phase c (parsed_spreadsheet h) params h = (Inr (), h1)"
    "(if validation_errors h1 = [] then content_phase c (parsed_spreadsheet h) params h1
      else ret () h1) = (Inr (), h2)"
    "valid \<longleftrightarrow> validation_errors h2 = []"
    "validation_errors h' = validation_errors h2"
proof -
  obtain r h0 where vp: "validation_parameters c (parsed_spreadsheet h) h = (r, h0)"
    by (cases "validation_parameters c (parsed_spreadsheet h) h")
  have h0: "h0 = h" using validation_parameters_state [of c "parsed_spreadsheet h" h] vp by simp
  from assms vp obtain params where r: "r = Inr params"
    by (cases r) (auto simp: Validate_def bnd_def get_parsed_def)
  obtain u h1 where sp: "structural_phase c (parsed_spreadsheet h) params h = (u, h1)"
    by (cases "structural_phase c (parsed_spreadsheet h) params h")
  from assms vp r h0 sp have u: "u = Inr ()"
    by (cases u) (auto simp: Validate_def bnd_def get_parsed_def)
  let ?second = "if validation_errors h1 = [] then content_phase c (parsed_spreadsheet h) params h1
      else ret () h1"
  obtain w h2 where cp: "?second = (w, h2)" by (cases ?second)
  from assms vp r h0 sp u cp have w: "w = Inr ()"
    by (cases w) (auto simp: Validate_def bnd_def get_parsed_def get_errors_def split: if_splits)
  from assms vp r h0 sp u cp w
  have "(valid \<longleftrightarrow> validation_errors h2 = []) \<and> validation_errors h' = validation_errors h2"
    by (auto simp: Validate_def bnd_def get_parsed_def get_errors_def LogErrors_def ret_def
        split: if_splits)
  then show ?thesis using that vp r h0 sp u cp w by blast
qed

lemma content_phase_reports:
  assumes run: "content_phase c ps params h1 = (Inr (), h2)"
    and table: "(table, parsed_sheet, required, column_headers) \<in> set params"
    and cell: "i < length parsed_sheet" "header \<in> set required"
      "(parsed_sheet ! i) header = Some []"
  shows "MissingSpreadsheetValueError table (i + ROW_START_INDEX) header
           (missing_value_message table header) \<in> set (validation_errors h2)"
proof -
  let ?e = "MissingSpreadsheetValueError table (i + ROW_START_INDEX) header
              (missing_value_message table header)"
  let ?P = "\<lambda>h. ?e \<in> set (validation_errors h)"
  let ?body = "\<lambda>(table, parsed_sheet, required, column_headers).
            iadd_errors (ValidateContents table parsed_sheet required)"
  from run obtain ha hb hc where
    contents: "for_each params ?body h1 = (Inr (), ha)"
    and fields: "iadd_errors (ValidateFieldsAcrossSheets c ps) ha = (Inr (), hb)"
    and states: "iadd_errors (call (ValidateStatesAcrossSheets c ps)) hb = (Inr (), hc)"
    and connections: "iadd_errors (call (ValidateConnections c ps)) hc = (Inr (), h2)"
    by (auto simp: content_phase_def bnd_def split: prod.splits sum.splits)
  have "?P ha"
  proof (rule for_each_establishes [OF contents table])
    fix s s'
    assume "?body (table, parsed_sheet, required, column_headers) s = (Inr (), s')"
    then have "iadd_errors (ValidateContents table parsed_sheet required) s = (Inr (), s')"
      by simp
    then show "?P s'"
      by (rule iadd_errors_adds) (rule ValidateContents_reports [OF _ cell])
  next
    fix y s s'
    assume step: "?body y s = (Inr (), s')" and before: "?P s"
    obtain t ps' rq ch where y: "y = (t, ps', rq, ch)" by (cases y)
    from step have "iadd_errors (ValidateContents t ps' rq) s = (Inr (), s')"
      unfolding y by simp
    then show "?P s'" using before by (rule iadd_errors_keeps)
  qed
  then have "?P hb" by (rule iadd_errors_keeps [OF fields])
  then have "?P hc" by (rule iadd_errors_keeps [OF states])
  then show "?P h2" by (rule iadd_errors_keeps [OF connections])
qed

lemma validation_parameters_tables:
  assumes "validation_parameters c ps h = (Inr params, h0)"
  shows "params = tables_of c ps"
  using assms
  by (auto simp: validation_parameters_def tables_of_def bnd_def getitem_def ret_def raise_def
      get_or_empty_def split: option.splits)

text \<open>
  Claim C1, amended. Let the structural phase (duplicate codes, facilities guids, headers
  of the five tables) return and leave the accumulated error list empty, which includes
  that the list was empty when Validate was called, and let Validate return rather than
  raise. If row \<open>i\<close> of one of the five tables has the empty string in a required-content
  column, then Validate returns false and the final error list contains the
  MissingSpreadsheetValueError of that table, row \<open>i + 2\<close> and column.
\<close>

theorem Validate_reports_empty_required_cell:
  assumes structural:
      "structural_phase c (parsed_spreadsheet h) (tables_of c (parsed_spreadsheet h)) h = (Inr (), h1)"
      "validation_errors h1 = []"
    and returns: "Validate c h = (Inr valid, h')"
    and table: "(table, parsed_sheet, required, column_headers)
                  \<in> set (tables_of c (parsed_spreadsheet h))"
    and cell: "i < length parsed_sheet" "header \<in> set required"
      "(parsed_sheet ! i) header = Some []"
  shows "\<not> valid \<and>
         MissingSpreadsheetValueError table (i + ROW_START_INDEX) header
           (missing_value_message table header) \<in> set (validation_errors h')"
proof -
  from returns obtain params h1' h2 where
    tables: "validation_parameters c (parsed_spreadsheet h) h = (Inr params, h)"
    and "structural_phase c (parsed_spreadsheet h) params h = (Inr (), h1')"
    and content: "(if validation_errors h1' = []
             then content_phase c (parsed_spreadsheet h) params h1'
             else ret () h1') = (Inr (), h2)"
    and valid: "valid \<longleftrightarrow> validation_errors h2 = []"
    and final: "validation_errors h' = validation_errors h2"
    by (rule Validate_returns)
  moreover have params: "params = tables_of c (parsed_spreadsheet h)"
    using tables by (rule validation_parameters_tables)
  ultimately have same: "h1' = h1" using structural(1) by simp
  from content same structural(2) params
  have "content_phase c (parsed_spreadsheet h) (tables_of c (parsed_spreadsheet h)) h1 = (Inr (), h2)"
    by simp
  then have "MissingSpreadsheetValueError table (i + ROW_START_INDEX) header
           (missing_value_message table header) \<in> set (validation_errors h2)"
    using table cell by (rule content_phase_reports)
  then show ?thesis using valid final by auto
qed

lemma structural_phase_empty_cell:
  "structural_phase example_constants empty_cell_spreadsheet
     (tables_of example_constants empty_cell_spreadsheet) (init ''log'' empty_cell_spreadsheet) =
   (Inr (), init ''log'' empty_cell_spreadsheet)"
  by (simp add: validator_defs run_defs tables_of_def example_constants_def
      consistent_spreadsheet_def empty_cell_spreadsheet_def)

lemma Validate_empty_cell:
  "fst (Validate example_constants (init ''log'' empty_cell_spreadsheet)) = Inr False"
  by (simp add: validator_defs run_defs example_constants_def consistent_spreadsheet_def
      empty_cell_spreadsheet_def)

lemma site_table_empty_cell:
  "(''Site'', [[''Building Code'' \<mapsto> '''']], [''Building Code''], [''Building Code''])
     \<in> set (tables_of example_constants empty_cell_spreadsheet)"
  by (simp add: tables_of_def example_constants_def empty_cell_spreadsheet_def get_or_empty_def)

text \<open>A run: the one Sites row has an empty building code.\<close>

theorem Validate_reports_empty_required_cell_witness:
  "structural_phase example_constants empty_cell_spreadsheet
     (tables_of example_constants empty_cell_spreadsheet) (init ''log'' empty_cell_spreadsheet) =
     (Inr (), init ''log'' empty_cell_spreadsheet)
   \<and> validation_errors (init ''log'' empty_cell_spreadsheet) = []
   \<and> fst (Validate example_constants (init ''log'' empty_cell_spreadsheet)) = Inr False
   \<and> (''Site'', [[''Building Code'' \<mapsto> '''']], [''Building Code''], [''Building Code''])
        \<in> set (tables_of example_constants empty_cell_spreadsheet)
   \<and> MissingSpreadsheetValueError ''Site'' 2 ''Building Code''
        (missing_value_message ''Site'' ''Building Code'')
        \<in> set (validation_errors
                 (snd (Validate example_constants (init ''log'' empty_cell_spreadsheet))))"
proof -
  let ?h = "init ''log'' empty_cell_spreadsheet"
  have ps: "parsed_spreadsheet ?h = empty_cell_spreadsheet" by (simp add: init_def)
  have structural: "structural_phase example_constants (parsed_spreadsheet ?h)
      (tables_of example_constants (parsed_spreadsheet ?h)) ?h = (Inr (), ?h)"
    unfolding ps by (rule structural_phase_empty_cell)
  have empty: "validation_errors ?h = []" by (simp add: init_def)
  have returns: "Validate example_constants ?h = (Inr False, snd (Validate example_constants ?h))"
    using Validate_empty_cell by (simp add: prod_eq_iff)
  have table: "(''Site'', [[''Building Code'' \<mapsto> '''']], [''Building Code''], [''Building Code''])
                 \<in> set (tables_of example_constants (parsed_spreadsheet ?h))"
    unfolding ps by (rule site_table_empty_cell)
  have "MissingSpreadsheetValueError ''Site'' (0 + ROW_START_INDEX) ''Building Code''
        (missing_value_message ''Site'' ''Building Code'')
        \<in> set (validation_errors (snd (Validate example_constants ?h)))"
    using Validate_reports_empty_required_cell [OF structural empty returns table, of 0 "''Building Code''"]
    by simp
  then show ?thesis
    using structural_phase_empty_cell empty Validate_empty_cell site_table_empty_cell
    by (simp add: ROW_START_INDEX_def numeral_2_eq_2)
qed

text \<open>
  Claim C1 as stated fails. On a fresh validator the structural phase finds no error in
  this spreadsheet, whose first Sites row has an empty building code and whose second
  Sites row has no column at all; the content validator indexes the second row and
  Validate raises KeyError instead of returning false.
\<close>

theorem Validate_raises_on_ragged_sheet:
  "structural_phase example_constants ragged_spreadsheet
     (tables_of example_constants ragged_spreadsheet) (init ''log'' ragged_spreadsheet) =
     (Inr (), init ''log'' ragged_spreadsheet)
   \<and> validation_errors (init ''log'' ragged_spreadsheet) = []
   \<and> (''Site'', [[''Building Code'' \<mapsto> ''''], Map.empty], [''Building Code''], [''Building Code''])
        \<in> set (tables_of example_constants ragged_spreadsheet)
   \<and> ([[''Building Code'' \<mapsto> ''''], Map.empty] ! 0) ''Building Code'' = Some ''''
   \<and> fst (Validate example_constants (init ''log'' ragged_spreadsheet)) =
        Inl (KeyError ''Building Code'')
   \<and> fst (Validate example_constants (init ''log'' ragged_spreadsheet)) \<noteq> Inr False"
proof -
  have "structural_phase example_constants ragged_spreadsheet
     (tables_of example_constants ragged_spreadsheet) (init ''log'' ragged_spreadsheet) =
     (Inr (), init ''log'' ragged_spreadsheet)"
    by (simp add: validator_defs run_defs tables_of_def example_constants_def
        consistent_spreadsheet_def ragged_spreadsheet_def)
  moreover have "(''Site'', [[''Building Code'' \<mapsto> ''''], Map.empty], [''Building Code''],
                   [''Building Code'']) \<in> set (tables_of example_constants ragged_spreadsheet)"
    by (simp add: tables_of_def example_constants_def ragged_spreadsheet_def get_or_empty_def)
  moreover have "fst (Validate example_constants (init ''log'' ragged_spreadsheet)) =
        Inl (KeyError ''Building Code'')"
    by (simp add: validator_defs run_defs example_constants_def consistent_spreadsheet_def
        ragged_spreadsheet_def)
  ultimately show ?thesis by (simp add: init_def)
qed

subsection \<open>A missing table\<close>

text \<open>
  Claim C8. When the mapping lacks at least one of the five table keys, Validate raises
  KeyError, for a table that is absent, and returns no boolean; the validator's state is
  as before the call.
\<close>

theorem Validate_raises_at_missing_table:
  assumes "parsed_spreadsheet h (SITES c) = None \<or> parsed_spreadsheet h (ENTITIES c) = None
           \<or> parsed_spreadsheet h (ENTITY_FIELDS c) = None \<or> parsed_spreadsheet h (STATES c) = None
           \<or> parsed_spreadsheet h (CONNECTIONS c) = None"
  shows "\<exists>table. Validate c h = (Inl (KeyError table), h)
           \<and> table \<in> {SITES c, ENTITIES c, ENTITY_FIELDS c, STATES c, CONNECTIONS c}
           \<and> parsed_spreadsheet h table = None"
proof -
  have "\<exists>table. validation_parameters c (parsed_spreadsheet h) h = (Inl (KeyError table), h)
           \<and> table \<in> {SITES c, ENTITIES c, ENTITY_FIELDS c, STATES c, CONNECTIONS c}
           \<and> parsed_spreadsheet h table = None"
    using assms
    by (auto simp: validation_parameters_def bnd_def getitem_def ret_def raise_def
        split: option.splits)
  then show ?thesis
    by (auto simp: Validate_def bnd_def get_parsed_def)
qed

text \<open>A run: the consistent spreadsheet without its Connections table.\<close>

theorem Validate_raises_at_missing_table_witness:
  "parsed_spreadsheet (init ''log'' missing_connections_spreadsheet)
     (CONNECTIONS example_constants) = None
   \<and> Validate example_constants (init ''log'' missing_connections_spreadsheet) =
       (Inl (KeyError ''Connections''), init ''log'' missing_connections_spreadsheet)"
proof -
  let ?h = "init ''log'' missing_connections_spreadsheet"
  have missing: "parsed_spreadsheet ?h (CONNECTIONS example_constants) = None"
    by (simp add: init_def missing_connections_spreadsheet_def example_constants_def)
  then have "parsed_spreadsheet ?h (SITES example_constants) = None
           \<or> parsed_spreadsheet ?h (ENTITIES example_constants) = None
           \<or> parsed_spreadsheet ?h (ENTITY_FIELDS example_constants) = None
           \<or> parsed_spreadsheet ?h (STATES example_constants) = None
           \<or> parsed_spreadsheet ?h (CONNECTIONS example_constants) = None"
    by simp
  from Validate_raises_at_missing_table [OF this] obtain table where
    raised: "Validate example_constants ?h = (Inl (KeyError table), ?h)"
    and "table \<in> {SITES example_constants, ENTITIES example_constants,
                  ENTITY_FIELDS example_constants, STATES example_constants,
                  CONNECTIONS example_constants}"
    and "parsed_spreadsheet ?h table = None"
    by blast
  then have "table = ''Connections''"
    by (auto simp: init_def missing_connections_spreadsheet_def consistent_spreadsheet_def
        example_constants_def)
  then show ?thesis using missing raised by simp
qed

subsection \<open>The spreadsheet is only read\<close>

lemma bnd_frame:
  assumes "\<And>h. parsed_spreadsheet (snd (m h)) = parsed_spreadsheet h"
    and "\<And>x h. parsed_spreadsheet (snd (f x h)) = parsed_spreadsheet h"
  shows "parsed_spreadsheet (snd (bnd m f h)) = parsed_spreadsheet h"
proof (cases "m h")
  case (Pair r h1)
  have h1: "parsed_spreadsheet h1 = parsed_spreadsheet h" using assms(1) [of h] Pair by simp
  show ?thesis
  proof (cases r)
    case (Inl e)
    then show ?thesis using Pair h1 by (simp add: bnd_def)
  next
    case (Inr x)
    then show ?thesis using Pair h1 assms(2) [of x h1] by (simp add: bnd_def)
  qed
qed

lemma for_each_frame:
  assumes "\<And>x h. parsed_spreadsheet (snd (body x h)) = parsed_spreadsheet h"
  shows "parsed_spreadsheet (snd (for_each xs body h)) = parsed_spreadsheet h"
proof (induction xs arbitrary: h)
  case Nil
  show ?case by (simp add: ret_def)
next
  case (Cons x xs)
  show ?case by (simp only: for_each.simps) (rule bnd_frame, rule assms, rule Cons.IH)
qed

lemma ret_frame: "parsed_spreadsheet (snd (ret x h)) = parsed_spreadsheet h"
  by (simp add: ret_def)

lemma raise_frame: "parsed_spreadsheet (snd (raise e h)) = parsed_spreadsheet h"
  by (simp add: raise_def)

lemma getitem_frame: "parsed_spreadsheet (snd (getitem d k h)) = parsed_spreadsheet h"
  by (simp add: getitem_def ret_def raise_def split: option.splits)

lemma call_frame: "parsed_spreadsheet (snd (call r h)) = parsed_spreadsheet h"
  by (simp add: call_def ret_def raise_def split: sum.splits)

lemma get_errors_frame: "parsed_spreadsheet (snd (get_errors h)) = parsed_spreadsheet h"
  by (simp add: get_errors_def)

lemma set_errors_frame: "parsed_spreadsheet (snd (set_errors es h)) = parsed_spreadsheet h"
  by (simp add: set_errors_def)

lemma append_error_frame: "parsed_spreadsheet (snd (append_error e h)) = parsed_spreadsheet h"
  by (simp add: append_error_def)

lemma get_parsed_frame: "parsed_spreadsheet (snd (get_parsed h)) = parsed_spreadsheet h"
  by (simp add: get_parsed_def)

lemma LogErrors_frame: "parsed_spreadsheet (snd (LogErrors es h)) = parsed_spreadsheet h"
  by (simp add: LogErrors_def)

lemma iadd_errors_frame:
  assumes "\<And>h. parsed_spreadsheet (snd (m h)) = parsed_spreadsheet h"
  shows "parsed_spreadsheet (snd (iadd_errors m h)) = parsed_spreadsheet h"
  unfolding iadd_errors_def
  by (intro bnd_frame get_errors_frame assms set_errors_frame)

lemma ValidateContents_frame:
  "parsed_spreadsheet (snd (ValidateContents table parsed_sheet required h)) = parsed_spreadsheet h"
  unfolding ValidateContents_def
  apply (intro bnd_frame set_errors_frame get_errors_frame for_each_frame)
  apply (simp add: split_def)
  apply (intro for_each_frame bnd_frame getitem_frame)
  apply (simp add: append_error_frame ret_frame)
  done

lemma ValidateFieldsAcrossSheets_frame:
  "parsed_spreadsheet (snd (ValidateFieldsAcrossSheets c ps h)) = parsed_spreadsheet h"
  unfolding ValidateFieldsAcrossSheets_def Let_def
  apply (intro bnd_frame set_errors_frame get_errors_frame for_each_frame)
  apply (auto simp: split_def bnd_def append_error_def ret_def)
  done

lemma validation_parameters_frame:
  "parsed_spreadsheet (snd (validation_parameters c ps h)) = parsed_spreadsheet h"
  by (simp add: validation_parameters_state)

lemma structural_phase_frame:
  "parsed_spreadsheet (snd (structural_phase c ps params h)) = parsed_spreadsheet h"
  unfolding structural_phase_def
  apply (intro bnd_frame getitem_frame iadd_errors_frame call_frame for_each_frame)
  apply (simp add: split_def)
  apply (intro iadd_errors_frame ret_frame)
  done

lemma content_phase_frame:
  "parsed_spreadsheet (snd (content_phase c ps params h)) = parsed_spreadsheet h"
  unfolding content_phase_def
  apply (intro bnd_frame iadd_errors_frame call_frame for_each_frame
      ValidateFieldsAcrossSheets_frame)
  apply (simp add: split_def)
  apply (intro iadd_errors_frame ValidateContents_frame)
  done

text \<open>
  Claim C9. A call of Validate leaves the spreadsheet object unchanged, whether it returns
  or raises: every table's rows and every row's mapping are after the call what they were
  before it.
\<close>

theorem Validate_leaves_spreadsheet_unchanged:
  "parsed_spreadsheet (snd (Validate c h)) = parsed_spreadsheet h"
  unfolding Validate_def
  apply (intro bnd_frame get_parsed_frame validation_parameters_frame structural_phase_frame
      get_errors_frame)
   apply (simp add: content_phase_frame ret_frame)
  apply (simp add: ret_frame)
  apply (intro conjI impI bnd_frame LogErrors_frame ret_frame)
  done

subsection \<open>Errors of an earlier call\<close>

text \<open>
  The error list is never cleared at the start of a call: errors already in it survive
  the structural phase, the content phase is skipped and the call returns false.
\<close>

lemma structural_phase_keeps:
  assumes "structural_phase c ps params h = (Inr (), h1)" and "e \<in> set (validation_errors h)"
  shows "e \<in> set (validation_errors h1)"
proof -
  let ?P = "\<lambda>h. e \<in> set (validation_errors h)"
  from assms(1) obtain entities ha hb where
    a: "iadd_errors (call (ValidateEntityCodes c entities)) h = (Inr (), ha)"
    and b: "iadd_errors (call (ValidateFacilitiesGuids c entities)) ha = (Inr (), hb)"
    and loop: "for_each params (\<lambda>(table, parsed_sheet, required, column_headers).
       iadd_errors (ret (ValidateHeaders table parsed_sheet column_headers))) hb = (Inr (), h1)"
    by (auto simp: structural_phase_def bnd_def getitem_def ret_def raise_def
        split: prod.splits sum.splits option.splits)
  have "?P ha" using a assms(2) by (rule iadd_errors_keeps)
  then have "?P hb" by (rule iadd_errors_keeps [OF b])
  show "?P h1"
  proof (rule for_each_invariant [where P = ?P, OF loop \<open>?P hb\<close>])
    fix x s s'
    assume step: "(case x of (table, parsed_sheet, required, column_headers) \<Rightarrow>
       iadd_errors (ret (ValidateHeaders table parsed_sheet column_headers))) s = (Inr (), s')"
      and before: "?P s"
    obtain t ps' rq ch where x: "x = (t, ps', rq, ch)" by (cases x)
    from step have "iadd_errors (ret (ValidateHeaders t ps' ch)) s = (Inr (), s')"
      unfolding x by simp
    then show "?P s'" using before by (rule iadd_errors_keeps)
  qed
qed

lemma Validate_false_after_errors:
  assumes "Validate c h = (Inr valid, h')" and "validation_errors h \<noteq> []"
  shows "\<not> valid"
proof -
  from assms(1) obtain params h1 h2 where
    structural: "structural_phase c (parsed_spreadsheet h) params h = (Inr (), h1)"
    and content: "(if validation_errors h1 = []
             then content_phase c (parsed_spreadsheet h) params h1
             else ret () h1) = (Inr (), h2)"
    and valid: "valid \<longleftrightarrow> validation_errors h2 = []"
    by (rule Validate_returns)
  from assms(2) obtain e where "e \<in> set (validation_errors h)"
    by (cases "validation_errors h") auto
  then have "e \<in> set (validation_errors h1)" by (rule structural_phase_keeps [OF structural])
  then have "validation_errors h1 \<noteq> []" by auto
  with content have "h2 = h1" by (simp add: ret_def)
  then show ?thesis using valid \<open>validation_errors h1 \<noteq> []\<close> by simp
qed

text \<open>
  Claim C10. The result of Validate is not a function of the spreadsheet alone: the
  consistent spreadsheet is valid for a fresh validator, and invalid for the validator
  that has validated a spreadsheet with a duplicated entity code before.
\<close>

theorem Validate_depends_on_earlier_call:
  "fst (Validate example_constants (init ''log'' consistent_spreadsheet)) = Inr True
   \<and> fst (Validate example_constants (init ''log'' duplicated_spreadsheet)) = Inr False
   \<and> fst (Validate example_constants
            ((snd (Validate example_constants (init ''log'' duplicated_spreadsheet)))
               \<lparr>parsed_spreadsheet := consistent_spreadsheet\<rparr>)) = Inr False"
proof -
  have first: "Validate example_constants (init ''log'' duplicated_spreadsheet) =
    (Inr False, \<lparr>filepath = ''log'',
       validation_errors = [DuplicateCodeError ''E1'' (duplicate_message example_constants ''E1'')],
       parsed_spreadsheet = duplicated_spreadsheet,
       logged = [DuplicateCodeError ''E1'' (duplicate_message example_constants ''E1'')]\<rparr>)"
    by (simp add: validator_defs run_defs example_constants_def consistent_spreadsheet_def
        duplicated_spreadsheet_def)
  have fresh: "fst (Validate example_constants (init ''log'' consistent_spreadsheet)) = Inr True"
    by (simp add: validator_defs run_defs example_constants_def consistent_spreadsheet_def)
  have second: "fst (Validate example_constants
       \<lparr>filepath = ''log'',
        validation_errors = [DuplicateCodeError ''E1'' (duplicate_message example_constants ''E1'')],
        parsed_spreadsheet = consistent_spreadsheet,
        logged = [DuplicateCodeError ''E1'' (duplicate_message example_constants ''E1'')]\<rparr>) =
      Inr False"
    by (simp add: validator_defs run_defs example_constants_def consistent_spreadsheet_def)
  show ?thesis using fresh second by (simp add: first)
qed

end
